theory Spec2Isabelle
  imports Main "HOL-Library.AList"
begin

section \<open>SPMD rule primitives of paddle/fluid/distributed/auto_parallel/spmd_rules/common.cc\<close>

text \<open>
  The embedding follows \<^verbatim>\<open>common.cc\<close> function by function.

  \<^item> A \<^verbatim>\<open>std::string\<close> is a \<^typ>\<open>string\<close>; an axis label is the string that
    \<^verbatim>\<open>substr(i, 1)\<close> returns.
  \<^item> An \<^verbatim>\<open>int64_t\<close> mesh dimension is an \<^typ>\<open>int\<close>: the code only compares mesh
    dimensions (\<^verbatim>\<open>!=\<close>, \<^verbatim>\<open>== -1\<close>, \<^verbatim>\<open>> -1\<close>) and never computes with them, so no
    operation can overflow.
  \<^item> A \<^verbatim>\<open>std::unordered_map\<close> is an association list with distinct keys. \<^verbatim>\<open>count\<close>
    and lookup are \<^const>\<open>map_of\<close>, \<^verbatim>\<open>insert\<close> keeps an existing entry and appends a new
    one, \<^verbatim>\<open>operator[]\<close> assignment is \<^const>\<open>AList.update\<close>. The list order is the order
    of insertion; C++ leaves the order of iteration open. The second loop of the merge
    gives the same map for every order (lemma \<open>resolve_order_irrelevant\<close>), and
    \<open>ResoluteOutputPartialDimension\<close> takes the entries as a list in the order visited,
    so what is proved of it holds for every order.
  \<^item> \<^verbatim>\<open>PADDLE_THROW\<close> and the \<^verbatim>\<open>std::out_of_range\<close> of \<^verbatim>\<open>substr\<close> are the \<open>Inl\<close>
    results of a sum type; a loop stops at the first of them.
  \<^item> The loop counters are \<^verbatim>\<open>int\<close> compared with a \<^verbatim>\<open>size_t\<close>; vectors are taken
    to be shorter than \<open>2^31\<close> elements, so the counter is a \<^typ>\<open>nat\<close>.
\<close>

subsection \<open>Errors\<close>

datatype fmt_arg = StrArg string | IntArg int

text \<open>
  \<open>Unimplemented fmt args\<close> is \<^verbatim>\<open>phi::errors::Unimplemented(fmt, args...)\<close> with the
  format string and its arguments kept apart; \<open>OutOfRange\<close> is \<^verbatim>\<open>std::out_of_range\<close>.
\<close>

datatype error = Unimplemented string "fmt_arg list" | OutOfRange

fun fold_err :: "('a \<Rightarrow> 's \<Rightarrow> error + 's) \<Rightarrow> 'a list \<Rightarrow> 's \<Rightarrow> error + 's" where
  "fold_err f [] s = Inr s"
| "fold_err f (x # xs) s = (case f x s of Inl e \<Rightarrow> Inl e | Inr s' \<Rightarrow> fold_err f xs s')"

subsection \<open>Strings and unordered maps\<close>

text \<open>\<^verbatim>\<open>s.substr(pos, n)\<close>: throws when \<open>pos\<close> is past the end, and is cut at the end.\<close>

definition substr :: "string \<Rightarrow> nat \<Rightarrow> nat \<Rightarrow> error + string" where
  "substr s pos n = (if length s < pos then Inl OutOfRange else Inr (take n (drop pos s)))"

text \<open>\<^verbatim>\<open>hay.find(needle)\<close>: the first position where \<open>needle\<close> starts, \<open>None\<close> for \<^verbatim>\<open>npos\<close>.\<close>

fun string_find :: "string \<Rightarrow> string \<Rightarrow> nat option" where
  "string_find [] needle = (if needle = [] then Some 0 else None)"
| "string_find (c # cs) needle =
     (if take (length needle) (c # cs) = needle then Some 0
      else map_option Suc (string_find cs needle))"

text \<open>\<^verbatim>\<open>m.insert({k, v})\<close>: a key that is already present keeps its old value.\<close>

definition umap_insert :: "'k \<Rightarrow> 'v \<Rightarrow> ('k \<times> 'v) list \<Rightarrow> ('k \<times> 'v) list" where
  "umap_insert k v m = (if map_of m k = None then m @ [(k, v)] else m)"

subsection \<open>SPMDRuleBase\<close>

text \<open>
  \<^verbatim>\<open>DistTensorSpec\<close> and \<^verbatim>\<open>AttributeMap\<close> are declared outside the file; the base
  methods never look at their arguments, so the types stay parameters.
\<close>

definition InferForward :: "'spec list \<Rightarrow> 'attrs \<Rightarrow> error + 'spec list" where
  "InferForward input_specs attrs =
     Inl (Unimplemented ''InferForward should be called from a derived class of SPMDRuleBase !'' [])"

definition InferBackward :: "'spec list \<Rightarrow> 'attrs \<Rightarrow> error + 'spec list" where
  "InferBackward output_specs attrs =
     Inl (Unimplemented ''InferBackward should be called from a derived class of SPMDRuleBase !'' [])"

subsection \<open>ShardingMergeForAxis\<close>

definition ShardingMergeForAxis :: "string \<Rightarrow> int \<Rightarrow> int \<Rightarrow> error + int" where
  "ShardingMergeForAxis axis mesh_dim1 mesh_dim2 =
     (if mesh_dim1 \<noteq> mesh_dim2 then
        if mesh_dim1 = - 1 then Inr mesh_dim2
        else if mesh_dim2 = - 1 then Inr mesh_dim1
        else Inl (Unimplemented
          ''Tensor Axis[%s] is Sharded by two different mesh dimension [%d] and [%d].''
          [StrArg axis, IntArg mesh_dim1, IntArg mesh_dim2])
      else Inr mesh_dim1)"

subsection \<open>ShardingMergeForTensors\<close>

record merge_state =
  axis_to_dim_map :: "(string \<times> int) list"
  dim_to_axis_map :: "(int \<times> string) list"

text \<open>
  The body of the inner loop once \<open>tensor_axis\<close> and \<open>mesh_dim\<close> are read: the pairwise
  merge against the recorded value, the \<^verbatim>\<open>insert\<close> into \<open>axis_to_dim_map\<close>, and the
  append of the label to the string kept for \<open>merge_dim\<close>.
\<close>

definition assign_axis :: "string \<Rightarrow> int \<Rightarrow> merge_state \<Rightarrow> error + merge_state" where
  "assign_axis tensor_axis mesh_dim st =
     (case (case map_of (axis_to_dim_map st) tensor_axis of
              None \<Rightarrow> Inr mesh_dim
            | Some recorded \<Rightarrow> ShardingMergeForAxis tensor_axis mesh_dim recorded) of
        Inl e \<Rightarrow> Inl e
      | Inr merge_dim \<Rightarrow>
          Inr \<lparr> axis_to_dim_map = umap_insert tensor_axis merge_dim (axis_to_dim_map st),
                dim_to_axis_map =
                  (case map_of (dim_to_axis_map st) merge_dim of
                     None \<Rightarrow> umap_insert merge_dim tensor_axis (dim_to_axis_map st)
                   | Some axes \<Rightarrow>
                       AList.update merge_dim (axes @ tensor_axis) (dim_to_axis_map st)) \<rparr>)"

text \<open>One pass of the inner loop, at index \<open>i\<close> of the pair \<open>(axes, dims)\<close>.\<close>

definition merge_position :: "string \<Rightarrow> int list \<Rightarrow> nat \<Rightarrow> merge_state \<Rightarrow> error + merge_state" where
  "merge_position axes dims i st =
     (case substr axes i 1 of
        Inl e \<Rightarrow> Inl e
      | Inr tensor_axis \<Rightarrow> assign_axis tensor_axis (dims ! i) st)"

definition merge_tensor :: "string \<times> int list \<Rightarrow> merge_state \<Rightarrow> error + merge_state" where
  "merge_tensor pair st =
     fold_err (merge_position (fst pair) (snd pair)) [0 ..< length (snd pair)] st"

definition init_state :: merge_state where
  "init_state = \<lparr> axis_to_dim_map = [], dim_to_axis_map = [] \<rparr>"

text \<open>The first loop nest: all positions of all pairs, in input order.\<close>

definition merge_loop :: "(string \<times> int list) list \<Rightarrow> error + merge_state" where
  "merge_loop tensor_notation_to_dim_pairs =
     fold_err merge_tensor tensor_notation_to_dim_pairs init_state"

text \<open>
  The second loop, for one entry \<open>it\<close> of \<open>dim_to_axis_map\<close>: when its string is longer
  than one character, every character from index 1 on is set to \<open>-1\<close> in
  \<open>axis_to_dim_map\<close>.
\<close>

definition demote_axis :: "string \<Rightarrow> nat \<Rightarrow> (string \<times> int) list \<Rightarrow> error + (string \<times> int) list" where
  "demote_axis axes i m =
     (case substr axes i 1 of
        Inl e \<Rightarrow> Inl e
      | Inr a \<Rightarrow> Inr (AList.update a (- 1) m))"

definition resolve_entry :: "int \<times> string \<Rightarrow> (string \<times> int) list \<Rightarrow> error + (string \<times> int) list" where
  "resolve_entry it m =
     (if 1 < length (snd it) then fold_err (demote_axis (snd it)) [1 ..< length (snd it)] m
      else Inr m)"

definition resolve_conflicts :: "merge_state \<Rightarrow> error + (string \<times> int) list" where
  "resolve_conflicts st = fold_err resolve_entry (dim_to_axis_map st) (axis_to_dim_map st)"

definition ShardingMergeForTensors :: "(string \<times> int list) list \<Rightarrow> error + (string \<times> int) list" where
  "ShardingMergeForTensors tensor_notation_to_dim_pairs =
     (case merge_loop tensor_notation_to_dim_pairs of
        Inl e \<Rightarrow> Inl e
      | Inr st \<Rightarrow> resolve_conflicts st)"

subsection \<open>ResoluteOutputPartialDimension\<close>

text \<open>
  \<open>in_axis_to_dim_map\<close> is the list of entries in the order the loop visits them.
\<close>

fun ResoluteOutputPartialDimension :: "(string \<times> int) list \<Rightarrow> string \<Rightarrow> int list" where
  "ResoluteOutputPartialDimension [] out_axis = []"
| "ResoluteOutputPartialDimension (it # rest) out_axis =
     (if string_find out_axis (fst it) \<noteq> None then
        if - 1 < snd it then snd it # ResoluteOutputPartialDimension rest out_axis
        else ResoluteOutputPartialDimension rest out_axis
      else ResoluteOutputPartialDimension rest out_axis)"

subsection \<open>CopyTensorDistAttrForOutput\<close>

text \<open>
  Modelled from the spec: the class \<^verbatim>\<open>TensorDistAttr\<close> is declared in a header that is
  not part of the sources at hand. Following the spec's data model it carries a mesh
  reference, a sharding vector, a partial-dimension list, a batch-dimension marker,
  dynamic-dimension flags and an annotated flag; each setter stores its argument in the
  field it names and each getter reads that field. The mesh type is a parameter.
\<close>

record 'mesh TensorDistAttr =
  process_mesh :: 'mesh
  dims_mapping :: "int list"
  partial_dims :: "int list"
  batch_dim :: int
  dynamic_dims :: "bool list"
  annotated :: bool

definition set_process_mesh :: "'mesh \<Rightarrow> 'mesh TensorDistAttr \<Rightarrow> 'mesh TensorDistAttr" where
  "set_process_mesh v attr = attr\<lparr>process_mesh := v\<rparr>"

definition set_batch_dim :: "int \<Rightarrow> 'mesh TensorDistAttr \<Rightarrow> 'mesh TensorDistAttr" where
  "set_batch_dim v attr = attr\<lparr>batch_dim := v\<rparr>"

definition set_dynamic_dims :: "bool list \<Rightarrow> 'mesh TensorDistAttr \<Rightarrow> 'mesh TensorDistAttr" where
  "set_dynamic_dims v attr = attr\<lparr>dynamic_dims := v\<rparr>"

definition set_annotated :: "bool \<Rightarrow> 'mesh TensorDistAttr \<Rightarrow> 'mesh TensorDistAttr" where
  "set_annotated v attr = attr\<lparr>annotated := v\<rparr>"

text \<open>
  \<open>fresh\<close> is the value of the default constructor \<^verbatim>\<open>TensorDistAttr()\<close>, which the
  sources do not show. The result is a pair: the argument object as it is after the
  call, and the returned object.
\<close>

definition CopyTensorDistAttrForOutput ::
  "'mesh TensorDistAttr \<Rightarrow> 'mesh TensorDistAttr \<Rightarrow> 'mesh TensorDistAttr \<times> 'mesh TensorDistAttr" where
  "CopyTensorDistAttrForOutput fresh src_dist_attr =
     (let new0 = fresh;
          new1 = set_process_mesh (process_mesh src_dist_attr) new0;
          new2 = set_batch_dim (batch_dim src_dist_attr) new1;
          new3 = set_dynamic_dims (dynamic_dims src_dist_attr) new2;
          new4 = set_annotated False new3
      in (src_dist_attr, new4))"

subsection \<open>Notions used to state the properties\<close>

text \<open>
  The positions the first loop nest visits for one pair: index \<open>i\<close> runs over the
  sharding vector and reads the label \<^verbatim>\<open>substr(i, 1)\<close> and the mesh dimension at \<open>i\<close>.
  \<open>all_positions\<close> lists them for all pairs in input order, so \<^const>\<open>map_of\<close> of it
  gives each label the mesh dimension of its first occurrence.
\<close>

definition positions_of :: "string \<times> int list \<Rightarrow> (string \<times> int) list" where
  "positions_of pair =
     map (\<lambda>i. (take 1 (drop i (fst pair)), snd pair ! i)) [0 ..< length (snd pair)]"

definition all_positions :: "(string \<times> int list) list \<Rightarrow> (string \<times> int) list" where
  "all_positions pairs = concat (map positions_of pairs)"

definition first_occurrence :: "(string \<times> int list) list \<Rightarrow> string \<Rightarrow> int option" where
  "first_occurrence pairs = map_of (all_positions pairs)"

definition assign_position :: "string \<times> int \<Rightarrow> merge_state \<Rightarrow> error + merge_state" where
  "assign_position p st = assign_axis (fst p) (snd p) st"

text \<open>The error that \<^const>\<open>ShardingMergeForAxis\<close> throws for an axis and two dimensions.\<close>

definition conflict_error :: "string \<Rightarrow> int \<Rightarrow> int \<Rightarrow> error" where
  "conflict_error axis mesh_dim1 mesh_dim2 =
     Unimplemented ''Tensor Axis[%s] is Sharded by two different mesh dimension [%d] and [%d].''
       [StrArg axis, IntArg mesh_dim1, IntArg mesh_dim2]"

text \<open>
  A position \<open>p\<close> conflicts with the recorded values when its label is recorded with a
  value that differs from the position's dimension and neither of the two is \<open>-1\<close>:
  the case in which \<^const>\<open>ShardingMergeForAxis\<close> throws.
\<close>

definition conflicts_with :: "(string \<Rightarrow> int option) \<Rightarrow> string \<times> int \<Rightarrow> bool" where
  "conflicts_with recorded p =
     (case recorded (fst p) of
        None \<Rightarrow> False
      | Some d0 \<Rightarrow> snd p \<noteq> d0 \<and> snd p \<noteq> - 1 \<and> d0 \<noteq> - 1)"

text \<open>
  The labels the second loop sets to \<open>-1\<close>: every character but the first of every
  string of \<open>dim_to_axis_map\<close>, as a label.
\<close>

definition demoted_axes :: "(int \<times> string) list \<Rightarrow> string set" where
  "demoted_axes dim_map = (\<Union>it \<in> set dim_map. (\<lambda>c. [c]) ` set (tl (snd it)))"

text \<open>
  The input contract of the merge: a notation and its sharding vector have the same
  length, and a mesh dimension is \<open>-1\<close> or a non-negative index.
\<close>

definition well_formed :: "(string \<times> int list) list \<Rightarrow> bool" where
  "well_formed pairs =
     list_all (\<lambda>p. length (fst p) = length (snd p) \<and> list_all (\<lambda>d. - 1 \<le> d) (snd p)) pairs"

text \<open>
  Invariant of the first loop: every character of a string of \<open>dim_to_axis_map\<close> is a
  label recorded in \<open>axis_to_dim_map\<close>.
\<close>

definition claims_recorded :: "merge_state \<Rightarrow> bool" where
  "claims_recorded st =
     (\<forall>it \<in> set (dim_to_axis_map st). \<forall>c \<in> set (snd it). [c] \<in> dom (map_of (axis_to_dim_map st)))"

section \<open>Helper lemmas\<close>

lemma fold_err_append:
  "fold_err f (xs @ ys) s = (case fold_err f xs s of Inl e \<Rightarrow> Inl e | Inr s' \<Rightarrow> fold_err f ys s')"
  by (induction xs arbitrary: s) (auto split: sum.splits)

lemma merge_position_Inr:
  "merge_position n s i st = Inr st' \<longleftrightarrow>
     i \<le> length n \<and> assign_position (take 1 (drop i n), s ! i) st = Inr st'"
  by (auto simp: merge_position_def substr_def assign_position_def)

lemma merge_position_in_range:
  "i \<le> length n \<Longrightarrow> merge_position n s i st = assign_position (take 1 (drop i n), s ! i) st"
  by (simp add: merge_position_def substr_def assign_position_def)

lemma fold_merge_position_Inr:
  "fold_err (merge_position n s) js st = Inr st' \<Longrightarrow>
     fold_err assign_position (map (\<lambda>i. (take 1 (drop i n), s ! i)) js) st = Inr st'"
proof (induction js arbitrary: st)
  case Nil
  then show ?case by simp
next
  case (Cons j js)
  from Cons.prems obtain st1 where
    s1: "merge_position n s j st = Inr st1" and s2: "fold_err (merge_position n s) js st1 = Inr st'"
    by (auto split: sum.splits)
  from s1 have "assign_position (take 1 (drop j n), s ! j) st = Inr st1"
    by (simp add: merge_position_Inr)
  with Cons.IH [OF s2] show ?case by simp
qed

lemma fold_merge_position_in_range:
  "list_all (\<lambda>i. i \<le> length n) js \<Longrightarrow>
     fold_err (merge_position n s) js st =
     fold_err assign_position (map (\<lambda>i. (take 1 (drop i n), s ! i)) js) st"
  by (induction js arbitrary: st) (auto simp: merge_position_in_range split: sum.splits)

lemma merge_tensor_Inr:
  "merge_tensor pair st = Inr st' \<Longrightarrow> fold_err assign_position (positions_of pair) st = Inr st'"
  unfolding merge_tensor_def positions_of_def by (rule fold_merge_position_Inr)

lemma merge_tensor_in_range:
  assumes "length (snd pair) \<le> length (fst pair)"
  shows "merge_tensor pair st = fold_err assign_position (positions_of pair) st"
proof -
  from assms have "list_all (\<lambda>i. i \<le> length (fst pair)) [0 ..< length (snd pair)]"
    by (simp add: list_all_iff)
  then show ?thesis
    unfolding merge_tensor_def positions_of_def by (rule fold_merge_position_in_range)
qed

lemma fold_merge_tensor_Inr:
  "fold_err merge_tensor pairs st = Inr st' \<Longrightarrow>
     fold_err assign_position (all_positions pairs) st = Inr st'"
proof (induction pairs arbitrary: st)
  case Nil
  then show ?case by (simp add: all_positions_def)
next
  case (Cons p pairs)
  from Cons.prems obtain st1 where
    s1: "merge_tensor p st = Inr st1" and s2: "fold_err merge_tensor pairs st1 = Inr st'"
    by (auto split: sum.splits)
  have "fold_err assign_position (positions_of p) st = Inr st1"
    using s1 by (rule merge_tensor_Inr)
  moreover have "fold_err assign_position (all_positions pairs) st1 = Inr st'"
    using s2 by (rule Cons.IH)
  ultimately show ?case
    by (simp add: all_positions_def fold_err_append)
qed

lemma fold_merge_tensor_in_range:
  "list_all (\<lambda>p. length (snd p) \<le> length (fst p)) pairs \<Longrightarrow>
     fold_err merge_tensor pairs st = fold_err assign_position (all_positions pairs) st"
proof (induction pairs arbitrary: st)
  case Nil
  then show ?case by (simp add: all_positions_def)
next
  case (Cons p pairs)
  then have hd: "merge_tensor p st = fold_err assign_position (positions_of p) st"
    and tl: "\<And>st1. fold_err merge_tensor pairs st1 = fold_err assign_position (all_positions pairs) st1"
    by (simp_all add: merge_tensor_in_range)
  show ?case
    by (cases "fold_err assign_position (positions_of p) st")
       (simp_all add: hd tl all_positions_def fold_err_append)
qed

lemma map_of_umap_insert: "map_of (umap_insert k v m) = [k \<mapsto> v] ++ map_of m"
  by (auto simp: umap_insert_def map_add_def fun_eq_iff split: option.splits)

lemma assign_axis_axis_map:
  assumes "assign_axis a d st = Inr st'"
  shows "map_of (axis_to_dim_map st') = [a \<mapsto> d] ++ map_of (axis_to_dim_map st)"
proof (cases "map_of (axis_to_dim_map st) a")
  case None
  with assms show ?thesis
    by (auto simp: assign_axis_def map_of_umap_insert)
next
  case (Some v)
  with assms have "axis_to_dim_map st' = axis_to_dim_map st"
    by (auto simp: assign_axis_def umap_insert_def split: sum.splits)
  moreover from Some have "[a \<mapsto> d] ++ map_of (axis_to_dim_map st) = map_of (axis_to_dim_map st)"
    by (auto simp: map_add_def fun_eq_iff split: option.splits)
  ultimately show ?thesis by simp
qed

lemma run_positions_axis_map:
  "fold_err assign_position ps st = Inr st' \<Longrightarrow>
     map_of (axis_to_dim_map st') = map_of ps ++ map_of (axis_to_dim_map st)"
proof (induction ps arbitrary: st)
  case Nil
  then show ?case by simp
next
  case (Cons p ps)
  from Cons.prems obtain st1 where
    s1: "assign_position p st = Inr st1" and s2: "fold_err assign_position ps st1 = Inr st'"
    by (auto split: sum.splits)
  from s1 have s1': "assign_axis (fst p) (snd p) st = Inr st1"
    by (simp add: assign_position_def)
  have b: "map_of (axis_to_dim_map st') = map_of ps ++ ([fst p \<mapsto> snd p] ++ map_of (axis_to_dim_map st))"
    using Cons.IH [OF s2] assign_axis_axis_map [OF s1'] by simp
  have a: "map_of (p # ps) = map_of ps ++ [fst p \<mapsto> snd p]"
    by (cases p) (auto simp: map_add_def fun_eq_iff)
  show ?case unfolding a b by (simp only: map_add_assoc)
qed

subsection \<open>When the first loop throws\<close>

lemma ShardingMergeForAxis_conflict:
  "d1 \<noteq> d2 \<Longrightarrow> d1 \<noteq> - 1 \<Longrightarrow> d2 \<noteq> - 1 \<Longrightarrow>
     ShardingMergeForAxis axis d1 d2 = Inl (conflict_error axis d1 d2)"
  by (simp add: ShardingMergeForAxis_def conflict_error_def)

lemma ShardingMergeForAxis_Inl_iff:
  "(\<exists>e. ShardingMergeForAxis axis d1 d2 = Inl e) \<longleftrightarrow> d1 \<noteq> d2 \<and> d1 \<noteq> - 1 \<and> d2 \<noteq> - 1"
  by (simp add: ShardingMergeForAxis_def)

lemma assign_axis_conflict:
  "map_of (axis_to_dim_map st) a = Some v \<Longrightarrow> d \<noteq> v \<Longrightarrow> d \<noteq> - 1 \<Longrightarrow> v \<noteq> - 1 \<Longrightarrow>
     assign_axis a d st = Inl (conflict_error a d v)"
  by (simp add: assign_axis_def ShardingMergeForAxis_conflict)

lemma assign_axis_Inl_iff:
  "(\<exists>e. assign_axis a d st = Inl e) \<longleftrightarrow>
     (\<exists>v. map_of (axis_to_dim_map st) a = Some v \<and> d \<noteq> v \<and> d \<noteq> - 1 \<and> v \<noteq> - 1)"
proof (cases "map_of (axis_to_dim_map st) a")
  case None
  then show ?thesis by (simp add: assign_axis_def)
next
  case (Some v)
  have "(\<exists>e. assign_axis a d st = Inl e) \<longleftrightarrow> (\<exists>e. ShardingMergeForAxis a d v = Inl e)"
    using Some by (cases "ShardingMergeForAxis a d v") (simp_all add: assign_axis_def)
  then show ?thesis using Some by (simp add: ShardingMergeForAxis_Inl_iff)
qed

lemma assign_position_Inl_iff:
  "(\<exists>e. assign_position p st = Inl e) \<longleftrightarrow> conflicts_with (map_of (axis_to_dim_map st)) p"
  by (auto simp: assign_position_def assign_axis_Inl_iff conflicts_with_def split: option.splits)

lemma map_of_Cons_add: "map_of (p # ps) ++ m = map_of ps ++ ([fst p \<mapsto> snd p] ++ m)"
  by (cases p) (auto simp: map_add_def fun_eq_iff split: option.splits)

lemma head_never_conflicts_after_success:
  assumes "\<not> conflicts_with m p"
  shows "\<not> conflicts_with (map_of ps ++ ([fst p \<mapsto> snd p] ++ m)) p"
  using assms by (auto simp: conflicts_with_def map_add_def split: option.splits)

lemma run_positions_Inl_iff:
  "(\<exists>e. fold_err assign_position ps st = Inl e) \<longleftrightarrow>
     (\<exists>p \<in> set ps. conflicts_with (map_of ps ++ map_of (axis_to_dim_map st)) p)"
proof (induction ps arbitrary: st)
  case Nil
  show ?case by simp
next
  case (Cons p ps)
  show ?case
  proof (cases "assign_position p st")
    case (Inl e)
    then have "conflicts_with (map_of (axis_to_dim_map st)) p"
      using assign_position_Inl_iff [of p st] by auto
    then have c: "conflicts_with (map_of (p # ps) ++ map_of (axis_to_dim_map st)) p"
      by (auto simp: conflicts_with_def map_add_def split: option.splits)
    have L: "\<exists>e. fold_err assign_position (p # ps) st = Inl e"
      using Inl by simp
    have R: "\<exists>q \<in> set (p # ps). conflicts_with (map_of (p # ps) ++ map_of (axis_to_dim_map st)) q"
      by (rule bexI [of _ p]) (rule c, simp)
    show ?thesis by (rule iffI) (rule R, rule L)
  next
    case (Inr st1)
    then have ax: "map_of (axis_to_dim_map st1) = [fst p \<mapsto> snd p] ++ map_of (axis_to_dim_map st)"
      by (simp add: assign_position_def assign_axis_axis_map)
    have nc: "\<not> conflicts_with (map_of (axis_to_dim_map st)) p"
      using Inr assign_position_Inl_iff [of p st] by auto
    have "(\<exists>e. fold_err assign_position (p # ps) st = Inl e) \<longleftrightarrow>
          (\<exists>e. fold_err assign_position ps st1 = Inl e)"
      using Inr by simp
    also have "\<dots> \<longleftrightarrow> (\<exists>q \<in> set ps. conflicts_with (map_of ps ++ map_of (axis_to_dim_map st1)) q)"
      by (rule Cons.IH)
    also have "\<dots> \<longleftrightarrow> (\<exists>q \<in> set ps. conflicts_with (map_of (p # ps) ++ map_of (axis_to_dim_map st)) q)"
      by (simp only: ax map_of_Cons_add)
    also have "\<dots> \<longleftrightarrow> (\<exists>q \<in> set (p # ps). conflicts_with (map_of (p # ps) ++ map_of (axis_to_dim_map st)) q)"
    proof -
      have "\<not> conflicts_with (map_of (p # ps) ++ map_of (axis_to_dim_map st)) p"
        unfolding map_of_Cons_add by (rule head_never_conflicts_after_success [OF nc])
      then show ?thesis by (auto simp del: map_of.simps)
    qed
    finally show ?thesis .
  qed
qed

subsection \<open>The second loop\<close>

lemma fold_demote_axis:
  "list_all (\<lambda>i. i \<le> length axes) js \<Longrightarrow>
     fold_err (demote_axis axes) js m =
       Inr (fold (\<lambda>i. AList.update (take 1 (drop i axes)) (- 1)) js m)"
  by (induction js arbitrary: m) (simp_all add: demote_axis_def substr_def)

lemma map_of_fold_update:
  "map_of (fold (\<lambda>i. AList.update (f i) v) js m) =
     (\<lambda>a. if a \<in> f ` set js then Some v else map_of m a)"
  by (induction js arbitrary: m) (auto simp: update_conv' fun_eq_iff)

lemma labels_after_first:
  "(\<lambda>i. take (Suc 0) (drop i s)) ` {Suc 0 ..< length s} = (\<lambda>c. [c]) ` set (tl s)"
proof (cases s)
  case Nil
  then show ?thesis by simp
next
  case (Cons c cs)
  have e: "{Suc 0 ..< Suc (length cs)} = Suc ` {0 ..< length cs}"
    by (simp only: image_Suc_atLeastLessThan)
  have "(\<lambda>i. take (Suc 0) (drop i (c # cs))) ` {Suc 0 ..< Suc (length cs)} =
        (\<lambda>i. take (Suc 0) (drop i (c # cs))) ` (Suc ` {0 ..< length cs})"
    by (simp only: e)
  also have "\<dots> = (\<lambda>i. take (Suc 0) (drop (Suc i) (c # cs))) ` {0 ..< length cs}"
    by (simp only: image_image)
  also have "\<dots> = (\<lambda>i. take (Suc 0) (drop i cs)) ` {0 ..< length cs}"
    by (simp only: drop_Suc_Cons)
  also have "\<dots> = (\<lambda>i. [cs ! i]) ` {0 ..< length cs}"
    by (rule image_cong) (simp_all add: take_Suc hd_drop_conv_nth)
  also have "\<dots> = (\<lambda>c. [c]) ` (nth cs ` {0 ..< length cs})"
    by (simp add: image_image)
  also have "nth cs ` {0 ..< length cs} = set cs"
    by (simp add: nth_image)
  finally show ?thesis using Cons by simp
qed

lemma set_tl_subset: "set (tl s) \<subseteq> set s"
  by (cases s) auto

lemma resolve_entry_total:
  "\<exists>m'. resolve_entry it m = Inr m' \<and>
     map_of m' = (\<lambda>a. if a \<in> (\<lambda>c. [c]) ` set (tl (snd it)) then Some (- 1) else map_of m a)"
proof (cases "1 < length (snd it)")
  case True
  have "list_all (\<lambda>i. i \<le> length (snd it)) [1 ..< length (snd it)]"
    by (simp add: list_all_iff)
  then have "resolve_entry it m =
      Inr (fold (\<lambda>i. AList.update (take 1 (drop i (snd it))) (- 1)) [1 ..< length (snd it)] m)"
    using True by (simp add: resolve_entry_def fold_demote_axis)
  then show ?thesis
    by (simp add: map_of_fold_update labels_after_first)
next
  case False
  then have "tl (snd it) = []"
    by (cases "snd it") simp_all
  with False show ?thesis by (simp add: resolve_entry_def)
qed

lemma fold_resolve_entry:
  "\<exists>m'. fold_err resolve_entry claims m = Inr m' \<and>
     map_of m' = (\<lambda>a. if a \<in> demoted_axes claims then Some (- 1) else map_of m a)"
proof (induction claims arbitrary: m)
  case Nil
  show ?case by (simp add: demoted_axes_def)
next
  case (Cons it claims)
  obtain m1 where m1: "resolve_entry it m = Inr m1"
    and v1: "map_of m1 = (\<lambda>a. if a \<in> (\<lambda>c. [c]) ` set (tl (snd it)) then Some (- 1) else map_of m a)"
    using resolve_entry_total [of it m] by blast
  obtain m2 where m2: "fold_err resolve_entry claims m1 = Inr m2"
    and v2: "map_of m2 = (\<lambda>a. if a \<in> demoted_axes claims then Some (- 1) else map_of m1 a)"
    using Cons.IH [of m1] by blast
  have "fold_err resolve_entry (it # claims) m = Inr m2"
    using m1 m2 by simp
  moreover have "map_of m2 = (\<lambda>a. if a \<in> demoted_axes (it # claims) then Some (- 1) else map_of m a)"
    unfolding v2 v1 by (auto simp: demoted_axes_def fun_eq_iff)
  ultimately show ?case by blast
qed

lemma resolve_conflicts_total:
  "\<exists>m. resolve_conflicts st = Inr m \<and>
     map_of m = (\<lambda>a. if a \<in> demoted_axes (dim_to_axis_map st) then Some (- 1)
                     else map_of (axis_to_dim_map st) a)"
  unfolding resolve_conflicts_def by (rule fold_resolve_entry)

lemma ShardingMergeForTensors_Inl_iff:
  "(\<exists>e. ShardingMergeForTensors pairs = Inl e) \<longleftrightarrow> (\<exists>e. merge_loop pairs = Inl e)"
proof (cases "merge_loop pairs")
  case (Inl e)
  then show ?thesis by (simp add: ShardingMergeForTensors_def)
next
  case (Inr st)
  then show ?thesis
    using resolve_conflicts_total [of st] by (auto simp: ShardingMergeForTensors_def)
qed

lemma set_alist_update: "set (AList.update k v al) \<subseteq> insert (k, v) (set al)"
  by (induction al) auto

lemma assign_axis_Inr_shape:
  assumes "assign_axis a d st = Inr st'"
  shows "\<exists>md. axis_to_dim_map st' = umap_insert a md (axis_to_dim_map st) \<and>
           dim_to_axis_map st' =
             (case map_of (dim_to_axis_map st) md of
                None \<Rightarrow> umap_insert md a (dim_to_axis_map st)
              | Some axes \<Rightarrow> AList.update md (axes @ a) (dim_to_axis_map st))"
proof (cases "case map_of (axis_to_dim_map st) a of
                None \<Rightarrow> Inr d | Some recorded \<Rightarrow> ShardingMergeForAxis a d recorded")
  case (Inl e)
  with assms show ?thesis by (simp add: assign_axis_def)
next
  case (Inr md)
  with assms have "st' = \<lparr> axis_to_dim_map = umap_insert a md (axis_to_dim_map st),
      dim_to_axis_map =
        (case map_of (dim_to_axis_map st) md of
           None \<Rightarrow> umap_insert md a (dim_to_axis_map st)
         | Some axes \<Rightarrow> AList.update md (axes @ a) (dim_to_axis_map st)) \<rparr>"
    by (simp add: assign_axis_def)
  then show ?thesis by (intro exI [of _ md]) simp
qed

lemma dom_umap_insert: "dom (map_of (umap_insert k v m)) = insert k (dom (map_of m))"
  by (simp add: map_of_umap_insert)

lemma short_label_chars: "length a \<le> 1 \<Longrightarrow> c \<in> set a \<Longrightarrow> [c] = a"
  by (cases a) auto

lemma assign_axis_claims_recorded:
  assumes "assign_axis a d st = Inr st'" and "length a \<le> 1" and "claims_recorded st"
  shows "claims_recorded st'"
proof -
  from assign_axis_Inr_shape [OF assms(1)] obtain md where
    ax: "axis_to_dim_map st' = umap_insert a md (axis_to_dim_map st)" and
    dm: "dim_to_axis_map st' =
           (case map_of (dim_to_axis_map st) md of
              None \<Rightarrow> umap_insert md a (dim_to_axis_map st)
            | Some axes \<Rightarrow> AList.update md (axes @ a) (dim_to_axis_map st))"
    by blast
  have dom': "dom (map_of (axis_to_dim_map st')) = insert a (dom (map_of (axis_to_dim_map st)))"
    unfolding ax by (rule dom_umap_insert)
  have old: "\<And>it c. it \<in> set (dim_to_axis_map st) \<Longrightarrow> c \<in> set (snd it) \<Longrightarrow>
               [c] \<in> dom (map_of (axis_to_dim_map st'))"
    using assms(3) unfolding claims_recorded_def dom' by blast
  have new: "\<And>c. c \<in> set a \<Longrightarrow> [c] \<in> dom (map_of (axis_to_dim_map st'))"
    using short_label_chars [OF assms(2)] unfolding dom' by blast
  show ?thesis
    unfolding claims_recorded_def
  proof (intro ballI)
    fix it c
    assume it: "it \<in> set (dim_to_axis_map st')" and c: "c \<in> set (snd it)"
    show "[c] \<in> dom (map_of (axis_to_dim_map st'))"
    proof (cases "map_of (dim_to_axis_map st) md")
      case None
      with dm have "dim_to_axis_map st' = dim_to_axis_map st @ [(md, a)]"
        by (simp add: umap_insert_def)
      with it have "it = (md, a) \<or> it \<in> set (dim_to_axis_map st)"
        by auto
      then show ?thesis
      proof
        assume "it = (md, a)"
        with c show ?thesis by (simp add: new)
      next
        assume "it \<in> set (dim_to_axis_map st)"
        then show ?thesis using c by (rule old)
      qed
    next
      case (Some axes)
      then have mem: "(md, axes) \<in> set (dim_to_axis_map st)"
        by (rule map_of_SomeD)
      from Some dm have "dim_to_axis_map st' = AList.update md (axes @ a) (dim_to_axis_map st)"
        by simp
      with it have "it = (md, axes @ a) \<or> it \<in> set (dim_to_axis_map st)"
        using set_alist_update [of md "axes @ a" "dim_to_axis_map st"] by auto
      then show ?thesis
      proof
        assume e: "it = (md, axes @ a)"
        with c have "c \<in> set axes \<or> c \<in> set a" by simp
        then show ?thesis
        proof
          assume "c \<in> set axes"
          with old [OF mem] show ?thesis by simp
        next
          assume "c \<in> set a"
          then show ?thesis by (rule new)
        qed
      next
        assume "it \<in> set (dim_to_axis_map st)"
        then show ?thesis using c by (rule old)
      qed
    qed
  qed
qed

lemma run_positions_claims_recorded:
  "fold_err assign_position ps st = Inr st' \<Longrightarrow> list_all (\<lambda>p. length (fst p) \<le> 1) ps \<Longrightarrow>
     claims_recorded st \<Longrightarrow> claims_recorded st'"
proof (induction ps arbitrary: st)
  case Nil
  then show ?case by simp
next
  case (Cons p ps)
  from Cons.prems(1) obtain st1 where
    s1: "assign_position p st = Inr st1" and s2: "fold_err assign_position ps st1 = Inr st'"
    by (auto split: sum.splits)
  from s1 Cons.prems(2,3) have "claims_recorded st1"
    by (auto simp: assign_position_def intro: assign_axis_claims_recorded)
  with Cons.IH [OF s2] Cons.prems(2) show ?case by simp
qed

lemma all_positions_short_labels: "list_all (\<lambda>p. length (fst p) \<le> 1) (all_positions pairs)"
  by (auto simp: all_positions_def positions_of_def list_all_iff)

lemma claims_recorded_demoted:
  "claims_recorded st \<Longrightarrow> demoted_axes (dim_to_axis_map st) \<subseteq> dom (map_of (axis_to_dim_map st))"
  using set_tl_subset by (fastforce simp: claims_recorded_def demoted_axes_def)

lemma claims_recorded_init: "claims_recorded init_state"
  by (simp add: claims_recorded_def init_state_def)

lemma merge_loop_Inr_positions:
  assumes "merge_loop pairs = Inr st"
  shows "fold_err assign_position (all_positions pairs) init_state = Inr st"
  using assms unfolding merge_loop_def by (rule fold_merge_tensor_Inr)


lemma well_formed_in_range:
  "well_formed pairs \<Longrightarrow> list_all (\<lambda>p. length (snd p) \<le> length (fst p)) pairs"
  by (auto simp: well_formed_def list_all_iff)

lemma well_formed_dims:
  "well_formed pairs \<Longrightarrow> (a, d) \<in> set (all_positions pairs) \<Longrightarrow> - 1 \<le> d"
  by (auto simp: well_formed_def all_positions_def positions_of_def list_all_iff)


lemma upt_split_at: "i < n \<Longrightarrow> [0 ..< n] = [0 ..< i] @ i # [Suc i ..< n]"
  by (metis le_add1 less_imp_le_nat plus_nat.add_0 upt_add_eq_append upt_conv_Cons le_add_diff_inverse)

lemma merge_tensor_conflict:
  assumes "fold_err (merge_position axes dims) [0 ..< i] st0 = Inr st"
    and "i < length dims"
    and "merge_position axes dims i st = Inl e"
  shows "merge_tensor (axes, dims) st0 = Inl e"
  using assms by (simp add: merge_tensor_def upt_split_at [of i "length dims"] fold_err_append)

lemma merge_loop_conflict:
  assumes "merge_loop pre = Inr st0" and "merge_tensor pair st0 = Inl e"
  shows "merge_loop (pre @ pair # post) = Inl e"
  using assms by (simp add: merge_loop_def fold_err_append)


subsection \<open>Iteration order and the resolver\<close>

text \<open>
  The second loop visits \<open>dim_to_axis_map\<close> in an order C++ does not fix. The map it
  leaves depends on the set of entries only.
\<close>

lemma resolve_order_irrelevant:
  assumes "set claims = set claims'"
    and "fold_err resolve_entry claims m = Inr m1"
    and "fold_err resolve_entry claims' m = Inr m2"
  shows "map_of m1 = map_of m2"
proof -
  have "demoted_axes claims = demoted_axes claims'"
    using assms(1) by (simp add: demoted_axes_def)
  then show ?thesis
    using fold_resolve_entry [of claims m] fold_resolve_entry [of claims' m] assms(2,3) by auto
qed

text \<open>
  What \<^const>\<open>ResoluteOutputPartialDimension\<close> computes, for every entry list: the
  values above \<open>-1\<close> of the entries whose label is found in \<open>out_axis\<close>.
\<close>

lemma ResoluteOutputPartialDimension_filter:
  "ResoluteOutputPartialDimension m out_axis =
     map snd (filter (\<lambda>it. string_find out_axis (fst it) \<noteq> None \<and> - 1 < snd it) m)"
  by (induction m) auto

lemma string_find_single: "string_find out_axis [c] \<noteq> None \<longleftrightarrow> c \<in> set out_axis"
  by (induction out_axis) auto

section \<open>Properties of the rule primitives\<close>

text \<open>
  C1. The scenario: tensor A with notation \<open>ik\<close> and sharding \<open>[0, 1]\<close>, tensor B with
  notation \<open>kj\<close> and sharding \<open>[1, -1]\<close>; the merge is to return \<open>{i:0, k:1, j:-1}\<close>
  and the resolver, on that map and the output notation \<open>ij\<close>, the list \<open>[1]\<close>.
  On the code the merge returns \<open>{i:0, k:-1, j:-1}\<close>: the second occurrence of \<open>k\<close>
  appends \<open>k\<close> once more to the string kept for mesh dimension 1, the string \<open>kk\<close> is
  longer than one character, and its second character is set to \<open>-1\<close>. The resolver
  returns \<open>[0]\<close> on the map \<open>{i:0, k:1, j:-1}\<close> and on the map the merge returns: it collects
  the labels that are found in the output notation.
\<close>

theorem partial_dimension_scenario_on_code:
  "ShardingMergeForTensors [(''ik'', [0, 1]), (''kj'', [1, - 1])]
     = Inr [(''i'', 0), (''k'', - 1), (''j'', - 1)]
   \<and> ResoluteOutputPartialDimension [(''i'', 0), (''k'', 1), (''j'', - 1)] ''ij'' = [0]
   \<and> ResoluteOutputPartialDimension [(''i'', 0), (''k'', - 1), (''j'', - 1)] ''ij'' = [0]"
  by code_simp

text \<open>
  C2. The resolver is to return the non-negative mesh dimensions of the entries whose
  label does not appear in the output notation. On the code, for the map \<open>{i:0, k:1}\<close>
  and the output notation \<open>ij\<close>, it returns \<open>[0]\<close>, the dimension of the label that
  does appear, in either order of the entries; the dimension 1 of the dropped label \<open>k\<close>
  is left out.
\<close>

theorem resolver_returns_kept_axes_on_code:
  "ResoluteOutputPartialDimension [(''i'', 0), (''k'', 1)] ''ij'' = [0]
   \<and> ResoluteOutputPartialDimension [(''k'', 1), (''i'', 0)] ''ij'' = [0]"
  by code_simp

text \<open>
  C3. A label that is already recorded is to take the result of the pairwise merge of
  the incoming and the recorded dimension. On the code, for label \<open>a\<close> recorded as
  \<open>-1\<close> and met again with dimension 0, the pairwise merge gives 0 and the returned map
  still holds \<open>-1\<close>: \<^verbatim>\<open>insert\<close> leaves an existing entry as it is.
\<close>

theorem repeated_label_keeps_recorded_value_on_code:
  "ShardingMergeForAxis ''a'' 0 (- 1) = Inr 0
   \<and> ShardingMergeForTensors [(''a'', [- 1]), (''a'', [0])] = Inr [(''a'', - 1)]"
  by code_simp

text \<open>
  C4. Merging a tensor with itself is to give the map of merging it alone. On the code,
  the pair \<open>(a, [0])\<close> alone gives \<open>{a:0}\<close> and the pair given twice gives \<open>{a:-1}\<close>.
\<close>

theorem merge_not_idempotent_on_code:
  "ShardingMergeForTensors [(''a'', [0])] = Inr [(''a'', 0)]
   \<and> ShardingMergeForTensors [(''a'', [0]), (''a'', [0])] = Inr [(''a'', - 1)]"
  by code_simp

text \<open>
  C5. When several labels claim one mesh dimension, the first of them is to keep it and
  the others are to become \<open>-1\<close>. On the code, for the three tensors \<open>(a, [0])\<close>,
  \<open>(b, [0])\<close>, \<open>(a, [0])\<close> the string kept for dimension 0 is \<open>aba\<close>, and the returned
  map holds \<open>-1\<close> for \<open>b\<close> and for the first claimant \<open>a\<close> as well.
\<close>

theorem first_claimant_demoted_on_code:
  "merge_loop [(''a'', [0]), (''b'', [0]), (''a'', [0])]
     = Inr \<lparr> axis_to_dim_map = [(''a'', 0), (''b'', 0)], dim_to_axis_map = [(0, ''aba'')] \<rparr>
   \<and> ShardingMergeForTensors [(''a'', [0]), (''b'', [0]), (''a'', [0])]
     = Inr [(''a'', - 1), (''b'', - 1)]"
  by code_simp

text \<open>
  C6. For every axis label and every two distinct non-negative mesh dimensions the
  pairwise merge fails with the error that names the axis and both dimensions (in the
  code an \<^verbatim>\<open>Unimplemented\<close> error with the message of \<^const>\<open>conflict_error\<close>), and a
  merge call in which this case arises returns that error and no map: whenever the
  run has processed the pairs \<open>pre\<close> and the first \<open>i\<close> positions of a pair without
  an error, position \<open>i\<close> carries the label \<open>axis\<close> with dimension \<open>d1\<close>, and the label
  is recorded with \<open>d2\<close>, the whole call fails, whatever follows.
\<close>

theorem conflicting_dimensions_abort_merge:
  assumes "0 \<le> d1" and "0 \<le> d2" and "d1 \<noteq> d2"
  shows "ShardingMergeForAxis axis d1 d2 = Inl (conflict_error axis d1 d2)
       \<and> (\<forall>pre axes dims post i st0 st.
            merge_loop pre = Inr st0 \<longrightarrow>
            fold_err (merge_position axes dims) [0 ..< i] st0 = Inr st \<longrightarrow>
            i < length dims \<longrightarrow>
            substr axes i 1 = Inr axis \<longrightarrow>
            dims ! i = d1 \<longrightarrow>
            map_of (axis_to_dim_map st) axis = Some d2 \<longrightarrow>
            ShardingMergeForTensors (pre @ (axes, dims) # post) = Inl (conflict_error axis d1 d2))"
proof (intro conjI allI impI)
  from assms show pairwise: "ShardingMergeForAxis axis d1 d2 = Inl (conflict_error axis d1 d2)"
    by (intro ShardingMergeForAxis_conflict) auto
next
  fix pre axes dims post i st0 st
  assume pre: "merge_loop pre = Inr st0"
    and before: "fold_err (merge_position axes dims) [0 ..< i] st0 = Inr st"
    and i: "i < length dims"
    and label: "substr axes i 1 = Inr axis"
    and incoming: "dims ! i = d1"
    and recorded: "map_of (axis_to_dim_map st) axis = Some d2"
  from assms have "assign_axis axis d1 st = Inl (conflict_error axis d1 d2)"
    by (intro assign_axis_conflict [OF recorded]) auto
  with label incoming have "merge_position axes dims i st = Inl (conflict_error axis d1 d2)"
    by (simp add: merge_position_def)
  with before i have "merge_tensor (axes, dims) st0 = Inl (conflict_error axis d1 d2)"
    by (rule merge_tensor_conflict)
  with pre have "merge_loop (pre @ (axes, dims) # post) = Inl (conflict_error axis d1 d2)"
    by (rule merge_loop_conflict)
  then show "ShardingMergeForTensors (pre @ (axes, dims) # post) = Inl (conflict_error axis d1 d2)"
    by (simp add: ShardingMergeForTensors_def)
qed

theorem conflicting_dimensions_abort_merge_witness:
  "ShardingMergeForAxis ''k'' 1 0 = Inl (conflict_error ''k'' 1 0)
   \<and> ShardingMergeForTensors [(''ik'', [- 1, 0]), (''kj'', [1, - 1])] = Inl (conflict_error ''k'' 1 0)"
proof -
  have d: "(0::int) \<le> 1" "(0::int) \<le> 0" "(1::int) \<noteq> 0"
    by simp_all
  have pre: "merge_loop [(''ik'', [- 1, 0])] =
      Inr \<lparr> axis_to_dim_map = [(''i'', - 1), (''k'', 0)], dim_to_axis_map = [(- 1, ''i''), (0, ''k'')] \<rparr>"
    by code_simp
  have before: "fold_err (merge_position ''kj'' [1, - 1]) [0 ..< 0]
      \<lparr> axis_to_dim_map = [(''i'', - 1), (''k'', 0)], dim_to_axis_map = [(- 1, ''i''), (0, ''k'')] \<rparr>
      = Inr \<lparr> axis_to_dim_map = [(''i'', - 1), (''k'', 0)], dim_to_axis_map = [(- 1, ''i''), (0, ''k'')] \<rparr>"
    by simp
  have i: "0 < length [1, - 1 :: int]"
    by simp
  have label: "substr ''kj'' 0 1 = Inr ''k''"
    by (simp add: substr_def)
  have incoming: "[1, - 1 :: int] ! 0 = 1"
    by simp
  have recorded: "map_of (axis_to_dim_map
      \<lparr> axis_to_dim_map = [(''i'', - 1), (''k'', 0)], dim_to_axis_map = [(- 1, ''i''), (0, ''k'')] \<rparr>) ''k'' = Some 0"
    by simp
  note inst = conflicting_dimensions_abort_merge [OF d, of "''k''"]
  from inst have a: "ShardingMergeForAxis ''k'' 1 0 = Inl (conflict_error ''k'' 1 0)"
    by (rule conjunct1)
  from inst [THEN conjunct2, rule_format, OF pre before i label incoming recorded, of "[]"]
  have b: "ShardingMergeForTensors [(''ik'', [- 1, 0]), (''kj'', [1, - 1])] = Inl (conflict_error ''k'' 1 0)"
    by simp
  from a b show ?thesis by (rule conjI)
qed

text \<open>
  C7. When the merge does not fail, the first loop has recorded for every label the mesh
  dimension of the label's first occurrence in input order (later occurrences change
  nothing), the returned map has exactly the labels of the input, and it gives a label
  \<open>-1\<close> if the second loop demoted it and the dimension of its first occurrence otherwise.
  The witness is a label first seen with \<open>-1\<close> and then with 0: the pairwise merge
  gives 0, the returned map holds \<open>-1\<close>.
\<close>

theorem merge_records_first_occurrence:
  assumes "ShardingMergeForTensors pairs = Inr m"
  shows "\<exists>st. merge_loop pairs = Inr st
           \<and> map_of (axis_to_dim_map st) = first_occurrence pairs
           \<and> dom (map_of m) = dom (first_occurrence pairs)
           \<and> map_of m = (\<lambda>a. if a \<in> demoted_axes (dim_to_axis_map st) then Some (- 1)
                              else first_occurrence pairs a)"
proof -
  from assms obtain st where loop: "merge_loop pairs = Inr st" and res: "resolve_conflicts st = Inr m"
    by (cases "merge_loop pairs") (simp_all add: ShardingMergeForTensors_def)
  have run: "fold_err assign_position (all_positions pairs) init_state = Inr st"
    using loop by (rule merge_loop_Inr_positions)
  have rec: "map_of (axis_to_dim_map st) = first_occurrence pairs"
    using run_positions_axis_map [OF run] by (simp add: init_state_def first_occurrence_def)
  have fin: "map_of m = (\<lambda>a. if a \<in> demoted_axes (dim_to_axis_map st) then Some (- 1)
                              else first_occurrence pairs a)"
    using resolve_conflicts_total [of st] res rec by auto
  have "claims_recorded st"
    using run all_positions_short_labels claims_recorded_init by (rule run_positions_claims_recorded)
  then have sub: "demoted_axes (dim_to_axis_map st) \<subseteq> dom (first_occurrence pairs)"
    using claims_recorded_demoted [of st] rec by simp
  have "dom (map_of m) = dom (first_occurrence pairs)"
  proof (rule set_eqI)
    fix a
    show "a \<in> dom (map_of m) \<longleftrightarrow> a \<in> dom (first_occurrence pairs)"
      using sub by (cases "a \<in> demoted_axes (dim_to_axis_map st)") (auto simp: fin)
  qed
  with loop rec fin show ?thesis by blast
qed

theorem merge_records_first_occurrence_witness:
  "ShardingMergeForTensors [(''a'', [- 1]), (''a'', [0])] = Inr [(''a'', - 1)]
   \<and> ShardingMergeForAxis ''a'' 0 (- 1) = Inr 0
   \<and> first_occurrence [(''a'', [- 1]), (''a'', [0])] ''a'' = Some (- 1)
   \<and> (\<exists>st. merge_loop [(''a'', [- 1]), (''a'', [0])] = Inr st
           \<and> map_of (axis_to_dim_map st) = first_occurrence [(''a'', [- 1]), (''a'', [0])]
           \<and> dom (map_of [(''a'', - 1 :: int)]) = dom (first_occurrence [(''a'', [- 1]), (''a'', [0])])
           \<and> map_of [(''a'', - 1)] =
               (\<lambda>a. if a \<in> demoted_axes (dim_to_axis_map st) then Some (- 1)
                    else first_occurrence [(''a'', [- 1]), (''a'', [0])] a))"
proof -
  have h: "ShardingMergeForTensors [(''a'', [- 1]), (''a'', [0])] = Inr [(''a'', - 1)]"
    by code_simp
  have m: "ShardingMergeForAxis ''a'' 0 (- 1) = Inr 0"
    by code_simp
  have f: "first_occurrence [(''a'', [- 1]), (''a'', [0])] ''a'' = Some (- 1)"
    by (simp add: first_occurrence_def all_positions_def positions_of_def)
  from h m f merge_records_first_occurrence [OF h] show ?thesis by blast
qed

text \<open>
  C8. Stated for every input, "the merge fails if and only if some label whose first
  occurrence carries a non-negative mesh dimension has a later occurrence with a
  different non-negative one" does not hold: a sharding vector more than one element
  longer than its notation makes \<^verbatim>\<open>substr\<close> throw, and a first occurrence below \<open>-1\<close>
  counts as a dimension for \<^const>\<open>ShardingMergeForAxis\<close> (both inputs are evaluated
  after the witness). It holds for the
  inputs that meet the contract of the merge (\<^const>\<open>well_formed\<close>: every notation is as
  long as its sharding vector, every mesh dimension is \<open>-1\<close> or non-negative): for
  these the merge fails if and only if some label whose first occurrence carries a
  non-negative mesh dimension \<open>d0\<close> has an occurrence with a non-negative dimension \<open>d\<close>
  other than \<open>d0\<close> (which is then a later one). The witness has a label first seen
  with \<open>-1\<close> and then with 0 and with 1, where the merge does not fail, and a label
  seen with 0 and then with 1, where it does.
\<close>

theorem merge_fails_iff_first_occurrence_conflict:
  assumes "well_formed pairs"
  shows "(\<exists>e. ShardingMergeForTensors pairs = Inl e) \<longleftrightarrow>
         (\<exists>a d d0. (a, d) \<in> set (all_positions pairs) \<and> first_occurrence pairs a = Some d0
                   \<and> 0 \<le> d0 \<and> 0 \<le> d \<and> d \<noteq> d0)"
proof -
  let ?ps = "all_positions pairs"
  have loop: "merge_loop pairs = fold_err assign_position ?ps init_state"
    unfolding merge_loop_def
    using well_formed_in_range [OF assms] by (rule fold_merge_tensor_in_range)
  have "(\<exists>e. ShardingMergeForTensors pairs = Inl e) \<longleftrightarrow>
        (\<exists>p \<in> set ?ps. conflicts_with (map_of ?ps) p)"
    using run_positions_Inl_iff [of ?ps init_state]
    by (simp add: ShardingMergeForTensors_Inl_iff loop init_state_def)
  also have "\<dots> \<longleftrightarrow> (\<exists>a d d0. (a, d) \<in> set ?ps \<and> first_occurrence pairs a = Some d0
                   \<and> 0 \<le> d0 \<and> 0 \<le> d \<and> d \<noteq> d0)"
  proof
    assume "\<exists>p \<in> set ?ps. conflicts_with (map_of ?ps) p"
    then obtain a d d0 where in_ps: "(a, d) \<in> set ?ps" and first: "map_of ?ps a = Some d0"
      and ne: "d \<noteq> d0" "d \<noteq> - 1" "d0 \<noteq> - 1"
      by (auto simp: conflicts_with_def split: option.splits)
    from first have "(a, d0) \<in> set ?ps" by (rule map_of_SomeD)
    with in_ps have "- 1 \<le> d" "- 1 \<le> d0"
      using well_formed_dims [OF assms] by blast+
    with ne have "0 \<le> d0" "0 \<le> d" by simp_all
    with in_ps first ne(1) show "\<exists>a d d0. (a, d) \<in> set ?ps \<and> first_occurrence pairs a = Some d0
                   \<and> 0 \<le> d0 \<and> 0 \<le> d \<and> d \<noteq> d0"
      unfolding first_occurrence_def by blast
  next
    assume "\<exists>a d d0. (a, d) \<in> set ?ps \<and> first_occurrence pairs a = Some d0
                   \<and> 0 \<le> d0 \<and> 0 \<le> d \<and> d \<noteq> d0"
    then obtain a d d0 where in_ps: "(a, d) \<in> set ?ps" and first: "map_of ?ps a = Some d0"
      and c: "0 \<le> d0" "0 \<le> d" "d \<noteq> d0"
      unfolding first_occurrence_def by blast
    then have "conflicts_with (map_of ?ps) (a, d)"
      by (simp add: conflicts_with_def)
    with in_ps show "\<exists>p \<in> set ?ps. conflicts_with (map_of ?ps) p" by blast
  qed
  finally show ?thesis .
qed

theorem merge_fails_iff_first_occurrence_conflict_witness:
  "well_formed [(''a'', [- 1]), (''a'', [0]), (''a'', [1])]
   \<and> (\<nexists>e. ShardingMergeForTensors [(''a'', [- 1]), (''a'', [0]), (''a'', [1])] = Inl e)
   \<and> well_formed [(''a'', [0]), (''a'', [1])]
   \<and> (\<exists>e. ShardingMergeForTensors [(''a'', [0]), (''a'', [1])] = Inl e)"
proof -
  have w1: "well_formed [(''a'', [- 1]), (''a'', [0]), (''a'', [1])]"
    by (simp add: well_formed_def)
  have w2: "well_formed [(''a'', [0]), (''a'', [1])]"
    by (simp add: well_formed_def)
  have p1: "all_positions [(''a'', [- 1]), (''a'', [0]), (''a'', [1])] = [(''a'', - 1), (''a'', 0), (''a'', 1)]"
    by (simp add: all_positions_def positions_of_def)
  have p2: "all_positions [(''a'', [0]), (''a'', [1])] = [(''a'', 0), (''a'', 1)]"
    by (simp add: all_positions_def positions_of_def)
  have n1: "\<nexists>e. ShardingMergeForTensors [(''a'', [- 1]), (''a'', [0]), (''a'', [1])] = Inl e"
    unfolding merge_fails_iff_first_occurrence_conflict [OF w1] first_occurrence_def p1 by auto
  have "(''a'', 1) \<in> set (all_positions [(''a'', [0]), (''a'', [1])])
        \<and> first_occurrence [(''a'', [0]), (''a'', [1])] ''a'' = Some 0
        \<and> (0::int) \<le> 0 \<and> (0::int) \<le> 1 \<and> (1::int) \<noteq> 0"
    unfolding first_occurrence_def p2 by simp
  then have y2: "\<exists>e. ShardingMergeForTensors [(''a'', [0]), (''a'', [1])] = Inl e"
    unfolding merge_fails_iff_first_occurrence_conflict [OF w2] by blast
  from w1 n1 w2 y2 show ?thesis by blast
qed

text \<open>
  Outside the contract the equivalence fails in the direction "fails, yet no such label".
  The pair \<open>(a, [0, 0, 0])\<close> reads \<^verbatim>\<open>substr(2, 1)\<close> of a string of length 1 and throws
  \<^verbatim>\<open>std::out_of_range\<close>; the pairs \<open>(a, [-2])\<close>, \<open>(a, [0])\<close> throw in the pairwise merge
  although the first occurrence of \<open>a\<close> is negative.
\<close>

theorem merge_fails_iff_first_occurrence_conflict_counterexample:
  "ShardingMergeForTensors [(''a'', [0, 0, 0])] = Inl OutOfRange
   \<and> (\<nexists>a d d0. (a, d) \<in> set (all_positions [(''a'', [0, 0, 0])])
          \<and> first_occurrence [(''a'', [0, 0, 0])] a = Some d0
          \<and> 0 \<le> d0 \<and> 0 \<le> d \<and> d \<noteq> d0)
   \<and> ShardingMergeForTensors [(''a'', [- 2]), (''a'', [0])] = Inl (conflict_error ''a'' 0 (- 2))
   \<and> (\<nexists>a d d0. (a, d) \<in> set (all_positions [(''a'', [- 2]), (''a'', [0])])
          \<and> first_occurrence [(''a'', [- 2]), (''a'', [0])] a = Some d0
          \<and> 0 \<le> d0 \<and> 0 \<le> d \<and> d \<noteq> d0)"
proof -
  have f1: "ShardingMergeForTensors [(''a'', [0, 0, 0])] = Inl OutOfRange"
    by code_simp
  have p1: "all_positions [(''a'', [0, 0, 0])] = [(''a'', 0), ('''', 0), ('''', 0)]"
    by (simp add: all_positions_def positions_of_def upt_rec)
  have n1: "\<nexists>a d d0. (a, d) \<in> set (all_positions [(''a'', [0, 0, 0])])
          \<and> first_occurrence [(''a'', [0, 0, 0])] a = Some d0
          \<and> 0 \<le> d0 \<and> 0 \<le> d \<and> d \<noteq> d0"
    unfolding first_occurrence_def p1 by auto
  have f2: "ShardingMergeForTensors [(''a'', [- 2]), (''a'', [0])] = Inl (conflict_error ''a'' 0 (- 2))"
    by code_simp
  have p2: "all_positions [(''a'', [- 2]), (''a'', [0])] = [(''a'', - 2), (''a'', 0)]"
    by (simp add: all_positions_def positions_of_def)
  have n2: "\<nexists>a d d0. (a, d) \<in> set (all_positions [(''a'', [- 2]), (''a'', [0])])
          \<and> first_occurrence [(''a'', [- 2]), (''a'', [0])] a = Some d0
          \<and> 0 \<le> d0 \<and> 0 \<le> d \<and> d \<noteq> d0"
    unfolding first_occurrence_def p2 by auto
  from f1 n1 f2 n2 show ?thesis by blast
qed

text \<open>
  C9. For every source descriptor, and whatever the default constructor yields, the
  returned descriptor has the source's process mesh, batch dimension and dynamic
  dimensions and is not annotated; the source descriptor is the same after the call.
\<close>

theorem copy_dist_attr_for_output:
  "fst (CopyTensorDistAttrForOutput fresh src) = src
   \<and> process_mesh (snd (CopyTensorDistAttrForOutput fresh src)) = process_mesh src
   \<and> batch_dim (snd (CopyTensorDistAttrForOutput fresh src)) = batch_dim src
   \<and> dynamic_dims (snd (CopyTensorDistAttrForOutput fresh src)) = dynamic_dims src
   \<and> \<not> annotated (snd (CopyTensorDistAttrForOutput fresh src))"
  by (simp add: CopyTensorDistAttrForOutput_def set_process_mesh_def set_batch_dim_def
      set_dynamic_dims_def set_annotated_def)

text \<open>
  C10. For every list of specs and every attribute map, \<open>InferForward\<close> and
  \<open>InferBackward\<close> of the base rule fail with the \<^verbatim>\<open>Unimplemented\<close> error whose message
  names \<^verbatim>\<open>SPMDRuleBase\<close>, and return no value.
\<close>

theorem base_rule_unimplemented:
  "InferForward input_specs attrs =
     Inl (Unimplemented ''InferForward should be called from a derived class of SPMDRuleBase !'' [])
   \<and> InferBackward output_specs attrs =
     Inl (Unimplemented ''InferBackward should be called from a derived class of SPMDRuleBase !'' [])
   \<and> (\<forall>v. InferForward input_specs attrs \<noteq> Inr v)
   \<and> (\<forall>v. InferBackward output_specs attrs \<noteq> Inr v)"
  by (simp add: InferForward_def InferBackward_def)

end
